theory Spec2Isabelle
  imports Main
begin

section \<open>Python strings\<close>

text \<open>
  The client (\<^verbatim>\<open>bhexpress/api_client/__init__.py\<close>) works on Python \<^verbatim>\<open>str\<close> values. A
  \<^verbatim>\<open>str\<close> is modelled as a \<^typ>\<open>string\<close> whose characters are the code points
  \<open>0 .. 255\<close>; text with code points beyond that range is outside the model. The
  accented letter in the message for a connection failure is code point \<open>0xF3\<close>, written
  \<open>CHR 0xF3\<close>.
\<close>

definition is_space :: "char \<Rightarrow> bool" where
  \<comment> \<open>\<^verbatim>\<open>str.isspace\<close> on one character: what \<^verbatim>\<open>str.strip()\<close> removes.\<close>
  "is_space c = (of_char c \<in> {9, 10, 11, 12, 13, 28, 29, 30, 31, 32, 133, 160 :: nat})"

definition strip :: "string \<Rightarrow> string" where
  \<comment> \<open>\<^verbatim>\<open>s.strip()\<close>\<close>
  "strip s = rev (dropWhile is_space (rev (dropWhile is_space s)))"

definition lstrip_chars :: "string \<Rightarrow> string \<Rightarrow> string" where
  \<comment> \<open>\<^verbatim>\<open>s.lstrip(chars)\<close>\<close>
  "lstrip_chars chars s = dropWhile (\<lambda>c. c \<in> set chars) s"

definition strip_chars :: "string \<Rightarrow> string \<Rightarrow> string" where
  \<comment> \<open>\<^verbatim>\<open>s.strip(chars)\<close>\<close>
  "strip_chars chars s =
     rev (dropWhile (\<lambda>c. c \<in> set chars) (rev (dropWhile (\<lambda>c. c \<in> set chars) s)))"

definition remove_char :: "char \<Rightarrow> string \<Rightarrow> string" where
  \<comment> \<open>\<^verbatim>\<open>s.replace(b, "")\<close> for a one-character \<^verbatim>\<open>b\<close>\<close>
  "remove_char b s = filter (\<lambda>c. c \<noteq> b) s"

fun find_char :: "char \<Rightarrow> string \<Rightarrow> nat option" where
  \<comment> \<open>\<^verbatim>\<open>s.find(c)\<close>, with \<open>None\<close> for the result \<^verbatim>\<open>-1\<close>\<close>
  "find_char c [] = None"
| "find_char c (x # xs) =
     (if x = c then Some 0 else map_option Suc (find_char c xs))"

fun split_on :: "char \<Rightarrow> string \<Rightarrow> string list" where
  \<comment> \<open>\<^verbatim>\<open>s.split(c)\<close> for a one-character separator\<close>
  "split_on c [] = [[]]"
| "split_on c (x # xs) =
     (if x = c then [] # split_on c xs
      else (x # hd (split_on c xs)) # tl (split_on c xs))"

fun join_with :: "string \<Rightarrow> string list \<Rightarrow> string" where
  \<comment> \<open>\<^verbatim>\<open>sep.join(parts)\<close>\<close>
  "join_with sep [] = []"
| "join_with sep [p] = p"
| "join_with sep (p # q # ps) = p @ sep @ join_with sep (q # ps)"

definition split_once :: "char \<Rightarrow> string \<Rightarrow> string \<times> string" where
  \<comment> \<open>\<^verbatim>\<open>s.split(c, 1)\<close> when \<^verbatim>\<open>c in s\<close>: the text before and after the first \<^verbatim>\<open>c\<close>\<close>
  "split_once c s = (takeWhile (\<lambda>x. x \<noteq> c) s, drop 1 (dropWhile (\<lambda>x. x \<noteq> c) s))"

definition ascii_lower :: "char \<Rightarrow> char" where
  "ascii_lower c =
     (if 65 \<le> (of_char c :: nat) \<and> (of_char c :: nat) \<le> 90
      then char_of ((of_char c :: nat) + 32) else c)"

definition is_ascii_alpha :: "char \<Rightarrow> bool" where
  \<comment> \<open>\<^verbatim>\<open>c.isascii() and c.isalpha()\<close>\<close>
  "is_ascii_alpha c =
     ((65 \<le> (of_char c :: nat) \<and> (of_char c :: nat) \<le> 90)
      \<or> (97 \<le> (of_char c :: nat) \<and> (of_char c :: nat) \<le> 122))"

definition hex_digit :: "nat \<Rightarrow> char" where
  "hex_digit d = (''0123456789abcdef'') ! (d mod 16)"

fun dec_nat :: "nat \<Rightarrow> string" where
  "dec_nat n =
     (if n < 10 then [(''0123456789'') ! n]
      else dec_nat (n div 10) @ [(''0123456789'') ! (n mod 10)])"

declare dec_nat.simps [simp del]

definition dec_int :: "int \<Rightarrow> string" where
  \<comment> \<open>\<^verbatim>\<open>str(i)\<close> of an integer\<close>
  "dec_int i = (if i < 0 then CHR ''-'' # dec_nat (nat (- i)) else dec_nat (nat i))"

section \<open>Python values\<close>

text \<open>
  The values that travel through the client as \<^verbatim>\<open>data\<close> and as the result of
  \<^verbatim>\<open>response.json()\<close>: \<^verbatim>\<open>None\<close>, booleans, integers, strings, lists and dictionaries
  with string keys (a dictionary is its items in insertion order). Floating-point numbers
  are not modelled.
\<close>

datatype pyval =
    PNone
  | PBool bool
  | PInt int
  | PStr string
  | PList "pyval list"
  | PDict "(string \<times> pyval) list"

fun truthy :: "pyval \<Rightarrow> bool" where
  \<comment> \<open>\<^verbatim>\<open>bool(v)\<close>\<close>
  "truthy PNone = False"
| "truthy (PBool b) = b"
| "truthy (PInt i) = (i \<noteq> 0)"
| "truthy (PStr s) = (s \<noteq> [])"
| "truthy (PList xs) = (xs \<noteq> [])"
| "truthy (PDict kvs) = (kvs \<noteq> [])"

fun is_str :: "pyval \<Rightarrow> bool" where
  \<comment> \<open>\<^verbatim>\<open>isinstance(v, str)\<close>\<close>
  "is_str (PStr s) = True"
| "is_str _ = False"

definition is_printable :: "char \<Rightarrow> bool" where
  \<comment> \<open>\<^verbatim>\<open>str.isprintable\<close> on one character\<close>
  "is_printable c =
     (32 \<le> (of_char c :: nat) \<and> (of_char c :: nat) \<noteq> 173
      \<and> \<not> (127 \<le> (of_char c :: nat) \<and> (of_char c :: nat) \<le> 160))"

definition hex2 :: "char \<Rightarrow> string" where
  "hex2 c = [hex_digit ((of_char c :: nat) div 16), hex_digit (of_char c :: nat)]"

definition repr_char :: "char \<Rightarrow> char \<Rightarrow> string" where
  "repr_char quote c =
     (if c = quote \<or> c = CHR 0x5C then [CHR 0x5C, c]
      else if c = CHR 0x09 then [CHR 0x5C, CHR ''t'']
      else if c = CHR 0x0A then [CHR 0x5C, CHR ''n'']
      else if c = CHR 0x0D then [CHR 0x5C, CHR ''r'']
      else if is_printable c then [c]
      else [CHR 0x5C, CHR ''x''] @ hex2 c)"

definition repr_str :: "string \<Rightarrow> string" where
  \<comment> \<open>\<^verbatim>\<open>repr(s)\<close> of a string: double quotes only when \<^verbatim>\<open>s\<close> has a single and no double quote\<close>
  "repr_str s =
     (let quote = (if CHR 0x27 \<in> set s \<and> CHR 0x22 \<notin> set s then CHR 0x22 else CHR 0x27)
      in [quote] @ concat (map (repr_char quote) s) @ [quote])"

fun py_repr :: "pyval \<Rightarrow> string" where
  \<comment> \<open>\<^verbatim>\<open>repr(v)\<close>\<close>
  "py_repr PNone = ''None''"
| "py_repr (PBool b) = (if b then ''True'' else ''False'')"
| "py_repr (PInt i) = dec_int i"
| "py_repr (PStr s) = repr_str s"
| "py_repr (PList xs) = ''['' @ join_with '', '' (map py_repr xs) @ '']''"
| "py_repr (PDict kvs) =
     ''{'' @ join_with '', '' (map (\<lambda>(k, v). repr_str k @ '': '' @ py_repr v) kvs) @ ''}''"

definition py_str :: "pyval \<Rightarrow> string" where
  \<comment> \<open>\<^verbatim>\<open>str(v)\<close>, which is what an f-string field \<^verbatim>\<open>{v}\<close> inserts\<close>
  "py_str v = (case v of PStr s \<Rightarrow> s | _ \<Rightarrow> py_repr v)"

section \<open>The standard library's JSON serializer\<close>

text \<open>
  \<^verbatim>\<open>json.dumps(v)\<close> with its default arguments (\<^verbatim>\<open>ensure_ascii=True\<close>, separators
  \<^verbatim>\<open>', '\<close> and \<^verbatim>\<open>': '\<close>), on the values of \<^typ>\<open>pyval\<close>.
\<close>

definition json_escape_char :: "char \<Rightarrow> string" where
  "json_escape_char c =
     (if c = CHR 0x22 then [CHR 0x5C, CHR 0x22]
      else if c = CHR 0x5C then [CHR 0x5C, CHR 0x5C]
      else if c = CHR 0x0A then [CHR 0x5C, CHR ''n'']
      else if c = CHR 0x0D then [CHR 0x5C, CHR ''r'']
      else if c = CHR 0x09 then [CHR 0x5C, CHR ''t'']
      else if c = CHR 0x0C then [CHR 0x5C, CHR ''f'']
      else if c = CHR 0x08 then [CHR 0x5C, CHR ''b'']
      else if 32 \<le> (of_char c :: nat) \<and> (of_char c :: nat) \<le> 126 then [c]
      else [CHR 0x5C, CHR ''u'', CHR ''0'', CHR ''0''] @ hex2 c)"

definition json_str :: "string \<Rightarrow> string" where
  "json_str s = [CHR 0x22] @ concat (map json_escape_char s) @ [CHR 0x22]"

fun json_dumps :: "pyval \<Rightarrow> string" where
  "json_dumps PNone = ''null''"
| "json_dumps (PBool b) = (if b then ''true'' else ''false'')"
| "json_dumps (PInt i) = dec_int i"
| "json_dumps (PStr s) = json_str s"
| "json_dumps (PList xs) = ''['' @ join_with '', '' (map json_dumps xs) @ '']''"
| "json_dumps (PDict kvs) =
     ''{'' @ join_with '', '' (map (\<lambda>(k, v). json_str k @ '': '' @ json_dumps v) kvs) @ ''}''"

section \<open>Exceptions\<close>

record ApiException =
  message :: string
  code :: "int option"
  params :: "(string \<times> pyval) list option"

definition ApiException_init ::
  "string \<Rightarrow> int option \<Rightarrow> (string \<times> pyval) list option \<Rightarrow> ApiException" where
  \<comment> \<open>\<^verbatim>\<open>ApiException.__init__(self, message, code=None, params=None)\<close>\<close>
  "ApiException_init m c p = \<lparr>message = m, code = c, params = p\<rparr>"

definition ApiException_str :: "ApiException \<Rightarrow> string" where
  \<comment> \<open>\<^verbatim>\<open>ApiException.__str__\<close>\<close>
  "ApiException_str e =
     (case code e of
        Some c \<Rightarrow> ''[BHExpress] Error '' @ dec_int c @ '': '' @ message e
      | None \<Rightarrow> ''[BHExpress] '' @ message e)"

text \<open>
  What a call of the client can raise: its own \<^verbatim>\<open>ApiException\<close>, the
  \<^verbatim>\<open>AttributeError\<close> of a method call on an object that has no such method, and the
  \<^verbatim>\<open>ValueError\<close> of \<^verbatim>\<open>urllib.parse\<close>.
\<close>

datatype exn = Raise_ApiException ApiException | AttributeError | ValueError

section \<open>The standard library's URL functions\<close>

text \<open>
  \<^verbatim>\<open>urllib.parse\<close> of CPython 3.11, as far as \<^verbatim>\<open>urljoin\<close> uses it. Two of its checks
  look at Unicode tables and IP-address syntax; they are parameters of the model: whether
  \<^verbatim>\<open>_check_bracketed_host\<close> accepts the host between \<^verbatim>\<open>[\<close> and \<^verbatim>\<open>]\<close>, and whether the
  NFKC comparison at the end of \<^verbatim>\<open>_checknetloc\<close> accepts a network location that is not
  ASCII. A check that fails raises \<^verbatim>\<open>ValueError\<close>.
\<close>

record urllib_checks =
  check_bracketed_host :: "string \<Rightarrow> bool"
  checknetloc_nfkc :: "string \<Rightarrow> bool"

definition uses_relative :: "string list" where
  "uses_relative = ['''', ''ftp'', ''http'', ''gopher'', ''nntp'', ''imap'',
     ''wais'', ''file'', ''https'', ''shttp'', ''mms'',
     ''prospero'', ''rtsp'', ''rtsps'', ''rtspu'', ''sftp'',
     ''svn'', ''svn+ssh'', ''ws'', ''wss'']"

definition uses_netloc :: "string list" where
  "uses_netloc = ['''', ''ftp'', ''http'', ''gopher'', ''nntp'', ''telnet'',
     ''imap'', ''wais'', ''file'', ''mms'', ''https'', ''shttp'',
     ''snews'', ''prospero'', ''rtsp'', ''rtsps'', ''rtspu'', ''rsync'',
     ''svn'', ''svn+ssh'', ''sftp'', ''nfs'', ''git'', ''git+ssh'',
     ''ws'', ''wss'']"

definition uses_params :: "string list" where
  "uses_params = ['''', ''ftp'', ''hdl'', ''prospero'', ''http'', ''imap'',
     ''https'', ''shttp'', ''rtsp'', ''rtsps'', ''rtspu'', ''sip'',
     ''sips'', ''mms'', ''sftp'', ''tel'']"

definition scheme_chars :: string where
  "scheme_chars =
     ''abcdefghijklmnopqrstuvwxyzABCDEFGHIJKLMNOPQRSTUVWXYZ0123456789+-.''"

definition WHATWG_C0_CONTROL_OR_SPACE :: string where
  "WHATWG_C0_CONTROL_OR_SPACE = map char_of [0 ..< 33 :: nat]"

definition remove_unsafe :: "string \<Rightarrow> string" where
  \<comment> \<open>the loop over \<^verbatim>\<open>_UNSAFE_URL_BYTES_TO_REMOVE = ['\t', '\r', '\n']\<close>\<close>
  "remove_unsafe s = remove_char (CHR 0x0A) (remove_char (CHR 0x0D) (remove_char (CHR 0x09) s))"

definition find_from :: "char \<Rightarrow> nat \<Rightarrow> string \<Rightarrow> nat option" where
  \<comment> \<open>\<^verbatim>\<open>s.find(c, start)\<close>\<close>
  "find_from c start s = map_option (\<lambda>i. i + start) (find_char c (drop start s))"

definition rfind_char :: "char \<Rightarrow> string \<Rightarrow> nat option" where
  \<comment> \<open>\<^verbatim>\<open>s.rfind(c)\<close>\<close>
  "rfind_char c s = map_option (\<lambda>j. length s - 1 - j) (find_char c (rev s))"

definition splitparams :: "string \<Rightarrow> string \<times> string" where
  "splitparams u =
     (if CHR ''/'' \<in> set u
      then (case find_from (CHR '';'') (the (rfind_char (CHR ''/'') u)) u of
              None \<Rightarrow> (u, [])
            | Some i \<Rightarrow> (take i u, drop (i + 1) u))
      else (case find_char (CHR '';'') u of
              None \<Rightarrow> (butlast u, u)
            | Some i \<Rightarrow> (take i u, drop (i + 1) u)))"

definition splitnetloc :: "string \<Rightarrow> nat \<Rightarrow> string \<times> string" where
  "splitnetloc u start =
     (let delim = fold (\<lambda>c d. case find_from c start u of
                                 Some w \<Rightarrow> min d w
                               | None \<Rightarrow> d) ''/?#'' (length u)
      in (take (delim - start) (drop start u), drop delim u))"

definition checknetloc :: "urllib_checks \<Rightarrow> string \<Rightarrow> bool" where
  \<comment> \<open>\<open>True\<close> when \<^verbatim>\<open>_checknetloc\<close> returns, \<open>False\<close> when it raises\<close>
  "checknetloc L netloc =
     (netloc = [] \<or> (\<forall>c \<in> set netloc. (of_char c :: nat) < 128) \<or> checknetloc_nfkc L netloc)"

definition split_tail :: "urllib_checks \<Rightarrow> string \<Rightarrow> string \<Rightarrow> string
    \<Rightarrow> exn + (string \<times> string \<times> string \<times> string \<times> string)" where
  \<comment> \<open>the end of \<^verbatim>\<open>urlsplit\<close>: fragment, query, \<^verbatim>\<open>_checknetloc\<close>, the result tuple\<close>
  "split_tail L sch netloc u =
     (let (u1, fragment) =
            (if CHR ''#'' \<in> set u then split_once (CHR ''#'') u else (u, []));
          (u2, query) =
            (if CHR ''?'' \<in> set u1 then split_once (CHR ''?'') u1 else (u1, []))
      in if checknetloc L netloc then Inr (sch, netloc, u2, query, fragment)
         else Inl ValueError)"

definition split_scheme :: "string \<Rightarrow> string \<Rightarrow> string \<times> string" where
  \<comment> \<open>the scheme of \<^verbatim>\<open>urlsplit\<close>: the text before the first colon when it is a scheme name,
      the default scheme otherwise\<close>
  "split_scheme dflt u =
     (case find_char (CHR '':'') u of
        None \<Rightarrow> (dflt, u)
      | Some i \<Rightarrow>
          if 0 < i \<and> is_ascii_alpha (hd u)
             \<and> (\<forall>c \<in> set (take i u). c \<in> set scheme_chars)
          then (map ascii_lower (take i u), drop (i + 1) u)
          else (dflt, u))"

definition split_authority :: "urllib_checks \<Rightarrow> string \<Rightarrow> string
    \<Rightarrow> exn + (string \<times> string \<times> string \<times> string \<times> string)" where
  \<comment> \<open>the network location of \<^verbatim>\<open>urlsplit\<close>, with its bracket checks, and then the rest\<close>
  "split_authority L sch u =
     (if take 2 u = ''//''
      then (let (netloc, u1) = splitnetloc u 2
            in if (CHR ''['' \<in> set netloc \<and> CHR '']'' \<notin> set netloc)
                  \<or> (CHR '']'' \<in> set netloc \<and> CHR ''['' \<notin> set netloc)
               then Inl ValueError
               else if CHR ''['' \<in> set netloc \<and> CHR '']'' \<in> set netloc
                  \<and> \<not> check_bracketed_host L
                        (takeWhile (\<lambda>c. c \<noteq> CHR '']'')
                           (drop 1 (dropWhile (\<lambda>c. c \<noteq> CHR ''['') netloc)))
               then Inl ValueError
               else split_tail L sch netloc u1)
      else split_tail L sch [] u)"

definition urlsplit :: "urllib_checks \<Rightarrow> string \<Rightarrow> string
    \<Rightarrow> exn + (string \<times> string \<times> string \<times> string \<times> string)" where
  "urlsplit L url0 scheme0 =
     (let u1 = remove_unsafe (lstrip_chars WHATWG_C0_CONTROL_OR_SPACE url0);
          s1 = remove_unsafe (strip_chars WHATWG_C0_CONTROL_OR_SPACE scheme0);
          (s2, u2) = split_scheme s1 u1
      in split_authority L s2 u2)"

definition urlparse :: "urllib_checks \<Rightarrow> string \<Rightarrow> string
    \<Rightarrow> exn + (string \<times> string \<times> string \<times> string \<times> string \<times> string)" where
  "urlparse L url0 scheme0 =
     (case urlsplit L url0 scheme0 of
        Inl e \<Rightarrow> Inl e
      | Inr (sch, netloc, u, query, fragment) \<Rightarrow>
          (let (u1, prms) =
                 (if sch \<in> set uses_params \<and> CHR '';'' \<in> set u then splitparams u
                  else (u, []))
           in Inr (sch, netloc, u1, prms, query, fragment)))"

definition urlunsplit :: "string \<times> string \<times> string \<times> string \<times> string \<Rightarrow> string" where
  "urlunsplit comps =
     (case comps of (sch, netloc, u, query, fragment) \<Rightarrow>
        (let u1 = (if netloc \<noteq> [] \<or> (sch \<noteq> [] \<and> sch \<in> set uses_netloc) \<or> take 2 u = ''//''
                   then ''//'' @ netloc
                        @ (if u \<noteq> [] \<and> take 1 u \<noteq> ''/'' then ''/'' @ u else u)
                   else u);
             u2 = (if sch \<noteq> [] then sch @ '':'' @ u1 else u1);
             u3 = (if query \<noteq> [] then u2 @ ''?'' @ query else u2)
         in if fragment \<noteq> [] then u3 @ ''#'' @ fragment else u3))"

definition urlunparse ::
  "string \<times> string \<times> string \<times> string \<times> string \<times> string \<Rightarrow> string" where
  "urlunparse comps =
     (case comps of (sch, netloc, u, prms, query, fragment) \<Rightarrow>
        urlunsplit (sch, netloc, if prms \<noteq> [] then u @ '';'' @ prms else u, query, fragment))"

definition filter_middle :: "string list \<Rightarrow> string list" where
  \<comment> \<open>\<^verbatim>\<open>segments[1:-1] = filter(None, segments[1:-1])\<close>\<close>
  "filter_middle segs =
     (case segs of
        [] \<Rightarrow> []
      | [x] \<Rightarrow> [x]
      | x # rest \<Rightarrow> x # filter (\<lambda>s. s \<noteq> []) (butlast rest) @ [last rest])"

definition resolve_step :: "string \<Rightarrow> string list \<Rightarrow> string list" where
  \<comment> \<open>one round of the loop \<^verbatim>\<open>for seg in segments\<close>; popping an empty list is ignored\<close>
  "resolve_step seg resolved_path =
     (if seg = ''..'' then butlast resolved_path
      else if seg = ''.'' then resolved_path
      else resolved_path @ [seg])"

definition urljoin :: "urllib_checks \<Rightarrow> string \<Rightarrow> string \<Rightarrow> exn + string" where
  "urljoin L base u =
     (if base = [] then Inr u
      else if u = [] then Inr base
      else case urlparse L base [] of
        Inl e \<Rightarrow> Inl e
      | Inr (bscheme, bnetloc, bpath, bparams, bquery, bfragment) \<Rightarrow>
      (case urlparse L u bscheme of
        Inl e \<Rightarrow> Inl e
      | Inr (sch, netloc, path, prms, query, fragment) \<Rightarrow>
          if sch \<noteq> bscheme \<or> sch \<notin> set uses_relative then Inr u
          else if sch \<in> set uses_netloc \<and> netloc \<noteq> []
          then Inr (urlunparse (sch, netloc, path, prms, query, fragment))
          else
            (let netloc1 = (if sch \<in> set uses_netloc then bnetloc else netloc)
             in if path = [] \<and> prms = []
                then Inr (urlunparse (sch, netloc1, bpath, bparams,
                                      if query = [] then bquery else query, fragment))
                else
                  (let base_parts0 = split_on (CHR ''/'') bpath;
                       base_parts = (if last base_parts0 \<noteq> [] then butlast base_parts0
                                     else base_parts0);
                       segments = (if take 1 path = ''/'' then split_on (CHR ''/'') path
                                   else filter_middle (base_parts @ split_on (CHR ''/'') path));
                       resolved0 = fold resolve_step segments [];
                       resolved_path = (if last segments = ''.'' \<or> last segments = ''..''
                                        then resolved0 @ [[]] else resolved0);
                       joined = join_with ''/'' resolved_path
                   in Inr (urlunparse (sch, netloc1, if joined = [] then ''/'' else joined,
                                       prms, query, fragment))))))"

section \<open>The HTTP library\<close>

text \<open>
  The client calls \<^verbatim>\<open>requests.request(method, full_url, data=data, headers=headers)\<close>.
  The call either returns a \<^verbatim>\<open>Response\<close> or raises an exception of the library, all of
  them subclasses of \<^verbatim>\<open>RequestException\<close>. Of a response the client reads
  \<^verbatim>\<open>status_code\<close>, \<^verbatim>\<open>text\<close> (the field \<open>response_text\<close>) and \<^verbatim>\<open>json()\<close>, whose
  outcome is the field \<open>json\<close>: \<open>None\<close> when it raises \<^verbatim>\<open>JSONDecodeError\<close>, the decoded value otherwise.
\<close>

record response =
  status_code :: int
  response_text :: string
  json :: "pyval option"

datatype request_exception_class =
    ConnectionError
  | ProxyError
  | SSLError
  | ConnectTimeout
  | Timeout
  | ReadTimeout
  | OtherRequestException

fun isinstance_ConnectionError :: "request_exception_class \<Rightarrow> bool" where
  \<comment> \<open>the subclasses of \<^verbatim>\<open>requests.exceptions.ConnectionError\<close>\<close>
  "isinstance_ConnectionError ConnectionError = True"
| "isinstance_ConnectionError ProxyError = True"
| "isinstance_ConnectionError SSLError = True"
| "isinstance_ConnectionError ConnectTimeout = True"
| "isinstance_ConnectionError _ = False"

fun isinstance_Timeout :: "request_exception_class \<Rightarrow> bool" where
  \<comment> \<open>the subclasses of \<^verbatim>\<open>requests.exceptions.Timeout\<close>\<close>
  "isinstance_Timeout Timeout = True"
| "isinstance_Timeout ConnectTimeout = True"
| "isinstance_Timeout ReadTimeout = True"
| "isinstance_Timeout _ = False"

record request_exception =
  exception_class :: request_exception_class
  detail :: string  \<comment> \<open>\<^verbatim>\<open>str(error)\<close>\<close>

type_synonym dict = "string \<rightharpoonup> string"

record http_request =
  req_method :: string
  req_url :: string
  req_data :: pyval
  req_headers :: dict

text \<open>
  The network is a state \<open>'w\<close> that only the library changes; one call of
  \<^verbatim>\<open>requests.request\<close> is one step of it. The library does not write to the objects it
  is given.
\<close>

type_synonym 'w transport = "http_request \<Rightarrow> 'w \<Rightarrow> (request_exception + response) \<times> 'w"

definition raises_HTTPError :: "response \<Rightarrow> bool" where
  \<comment> \<open>whether \<^verbatim>\<open>Response.raise_for_status()\<close> raises \<^verbatim>\<open>HTTPError\<close>\<close>
  "raises_HTTPError r = (400 \<le> status_code r \<and> status_code r < 600)"

section \<open>The interpreter state\<close>

text \<open>
  Dictionaries of headers are objects: a variable or an attribute holds the address of
  one. \<open>heap_alloc\<close> is the creation of a new dictionary, at an address not in use.
\<close>

type_synonym addr = nat

record heap =
  cells :: "addr \<Rightarrow> dict"
  lim :: addr

definition heap_alloc :: "dict \<Rightarrow> heap \<Rightarrow> addr \<times> heap" where
  "heap_alloc d h = (lim h, \<lparr>cells = (cells h)(lim h := d), lim = Suc (lim h)\<rparr>)"

record ApiClient =
  token :: string
  url :: string
  headers :: addr
  version :: string
  raise_for_status :: bool

record 'w externals =
  requests_request :: "'w transport"
  urllib :: urllib_checks

record 'w state =
  self :: ApiClient
  objects :: heap
  world :: 'w

section \<open>ApiClient\<close>

definition DEFAULT_URL :: string where
  "DEFAULT_URL = ''https://bhexpress.cl''"

definition DEFAULT_VERSION :: string where
  "DEFAULT_VERSION = ''v1''"

definition str_truthy :: "string option \<Rightarrow> bool" where
  \<comment> \<open>\<^verbatim>\<open>bool(x)\<close> of an argument that is \<^verbatim>\<open>None\<close> or a string\<close>
  "str_truthy x = (case x of None \<Rightarrow> False | Some s \<Rightarrow> s \<noteq> [])"

text \<open>
  The process environment is a map \<open>env\<close> from variable names to values:
  \<^verbatim>\<open>getenv(name)\<close> is \<open>env name\<close>.
\<close>

definition validate_token :: "(string \<rightharpoonup> string) \<Rightarrow> string option \<Rightarrow> exn + string" where
  "validate_token env tok =
     (let tok1 = (if str_truthy tok then tok else env ''BHEXPRESS_API_TOKEN'')
      in if \<not> str_truthy tok1
         then Inl (Raise_ApiException (ApiException_init
                ''Se debe configurar la variable de entorno: BHEXPRESS_API_TOKEN.'' None None))
         else Inr (strip (the tok1)))"

definition validate_url :: "(string \<rightharpoonup> string) \<Rightarrow> string option \<Rightarrow> string" where
  "validate_url env u =
     (if str_truthy u then strip (the u)
      else strip (case env ''BHEXPRESS_API_URL'' of None \<Rightarrow> DEFAULT_URL | Some v \<Rightarrow> v))"

definition generate_headers :: "string \<Rightarrow> dict" where
  "generate_headers tok =
     [''User-Agent'' \<mapsto> ''BHExpress: Cliente de API en Python.'',
      ''Accept'' \<mapsto> ''application/json'',
      ''Content-Type'' \<mapsto> ''application/json'',
      ''Authorization'' \<mapsto> ''Token '' @ tok]"

definition init :: "(string \<rightharpoonup> string) \<Rightarrow> string option \<Rightarrow> string option \<Rightarrow> string option
    \<Rightarrow> bool \<Rightarrow> heap \<Rightarrow> exn + (ApiClient \<times> heap)" where
  \<comment> \<open>\<^verbatim>\<open>ApiClient.__init__(self, token, url, version, raise_for_status)\<close>\<close>
  "init env tok u ver rfs h =
     (case validate_token env tok of
        Inl e \<Rightarrow> Inl e
      | Inr t \<Rightarrow>
          (let u1 = validate_url env u;
               (a, h1) = heap_alloc (generate_headers t) h
           in Inr (\<lparr>token = t, url = u1, headers = a,
                     version = (if str_truthy ver then the ver else DEFAULT_VERSION),
                     raise_for_status = rfs\<rparr>, h1)))"

definition py_get :: "pyval \<Rightarrow> string \<Rightarrow> pyval \<Rightarrow> exn + pyval" where
  \<comment> \<open>\<^verbatim>\<open>v.get(key, default)\<close>: only a dictionary has the method\<close>
  "py_get v key dflt =
     (case v of
        PDict kvs \<Rightarrow> (case map_of kvs key of None \<Rightarrow> Inr dflt | Some x \<Rightarrow> Inr x)
      | _ \<Rightarrow> Inl AttributeError)"

definition error_message :: "pyval \<Rightarrow> exn + pyval" where
  \<comment> \<open>\<^verbatim>\<open>error.get('message', '') or error.get('exception', '') or 'Error desconocido.'\<close>\<close>
  "error_message err =
     (case py_get err ''message'' (PStr []) of
        Inl e \<Rightarrow> Inl e
      | Inr m \<Rightarrow>
          if truthy m then Inr m
          else (case py_get err ''exception'' (PStr []) of
                  Inl e \<Rightarrow> Inl e
                | Inr x \<Rightarrow> if truthy x then Inr x else Inr (PStr ''Error desconocido.'')))"

definition check_and_return_response :: "ApiClient \<Rightarrow> response \<Rightarrow> exn + response" where
  "check_and_return_response c r =
     (if status_code r \<noteq> 200 \<and> raise_for_status c
      then (if raises_HTTPError r
            then (case json r of
                    None \<Rightarrow>
                      Inl (Raise_ApiException (ApiException_init
                        (''Error HTTP: '' @ ''Error al decodificar los datos en JSON: '' @ response_text r)
                        None None))
                  | Some err \<Rightarrow>
                      (case error_message err of
                         Inl e \<Rightarrow> Inl e
                       | Inr m \<Rightarrow>
                           Inl (Raise_ApiException (ApiException_init
                             (''Error HTTP: '' @ py_str m) None None))))
            else Inr r)
      else Inr r)"

definition merge_headers :: "ApiClient \<Rightarrow> addr option \<Rightarrow> heap \<Rightarrow> addr \<times> heap" where
  \<comment> \<open>\<^verbatim>\<open>headers = headers or {}\<close> and \<^verbatim>\<open>headers = {**self.headers, **headers}\<close>;
      the result is the address the local variable \<^verbatim>\<open>headers\<close> holds afterwards\<close>
  "merge_headers c hdrs h =
     (let (a1, h1) = (case hdrs of
                        None \<Rightarrow> heap_alloc Map.empty h
                      | Some a \<Rightarrow> if cells h a = Map.empty then heap_alloc Map.empty h
                                  else (a, h))
      in heap_alloc (cells h1 (headers c) ++ cells h1 a1) h1)"

definition encode_data :: "pyval \<Rightarrow> pyval" where
  \<comment> \<open>\<^verbatim>\<open>if data and not isinstance(data, str): data = json.dumps(data)\<close>\<close>
  "encode_data d = (if truthy d \<and> \<not> is_str d then PStr (json_dumps d) else d)"

definition full_url :: "urllib_checks \<Rightarrow> ApiClient \<Rightarrow> string \<Rightarrow> exn + string" where
  \<comment> \<open>the first two lines of \<^verbatim>\<open>__request\<close>\<close>
  "full_url L c resource =
     (let api_path = ''/api/'' @ version c @ resource
      in urljoin L (url c @ ''/'') (lstrip_chars ''/'' api_path))"

definition build_request :: "urllib_checks \<Rightarrow> ApiClient \<Rightarrow> string \<Rightarrow> string \<Rightarrow> pyval
    \<Rightarrow> addr option \<Rightarrow> heap \<Rightarrow> exn + (http_request \<times> heap)" where
  \<comment> \<open>\<^verbatim>\<open>__request\<close> up to its \<^verbatim>\<open>try\<close>: the arguments of \<^verbatim>\<open>requests.request\<close>, and the heap
      with the dictionaries created on the way\<close>
  "build_request L c method resource d hdrs h =
     (case full_url L c resource of
        Inl e \<Rightarrow> Inl e
      | Inr fu \<Rightarrow>
          (let (a, h1) = merge_headers c hdrs h;
               d1 = encode_data d
           in Inr (\<lparr>req_method = method, req_url = fu, req_data = d1,
                     req_headers = cells h1 a\<rparr>, h1)))"

definition except_clauses :: "request_exception \<Rightarrow> exn" where
  \<comment> \<open>the three \<^verbatim>\<open>except\<close> clauses of \<^verbatim>\<open>__request\<close>, in their order\<close>
  "except_clauses error =
     (if isinstance_ConnectionError (exception_class error)
      then Raise_ApiException (ApiException_init
             (''Error de conexi'' @ [CHR 0xF3] @ ''n: '' @ detail error) None None)
      else if isinstance_Timeout (exception_class error)
      then Raise_ApiException (ApiException_init
             (''Error de timeout: '' @ detail error) None None)
      else Raise_ApiException (ApiException_init
             (''Error en la solicitud: '' @ detail error) None None))"

definition dispatch :: "'w externals \<Rightarrow> http_request \<Rightarrow> 'w state
    \<Rightarrow> (exn + response) \<times> 'w state" where
  \<comment> \<open>the \<^verbatim>\<open>try\<close> statement of \<^verbatim>\<open>__request\<close>\<close>
  "dispatch X rq st =
     (let (outcome, w1) = requests_request X rq (world st);
          st1 = st\<lparr>world := w1\<rparr>
      in case outcome of
           Inr r \<Rightarrow> (check_and_return_response (self st1) r, st1)
         | Inl error \<Rightarrow> (Inl (except_clauses error), st1))"

definition request :: "'w externals \<Rightarrow> string \<Rightarrow> string \<Rightarrow> pyval \<Rightarrow> addr option
    \<Rightarrow> 'w state \<Rightarrow> (exn + response) \<times> 'w state" where
  \<comment> \<open>\<^verbatim>\<open>ApiClient.__request(self, method, resource, data=None, headers=None)\<close>\<close>
  "request X method resource d hdrs st =
     (case build_request (urllib X) (self st) method resource d hdrs (objects st) of
        Inl e \<Rightarrow> (Inl e, st)
      | Inr (rq, h1) \<Rightarrow> dispatch X rq (st\<lparr>objects := h1\<rparr>))"

definition get :: "'w externals \<Rightarrow> string \<Rightarrow> addr option \<Rightarrow> 'w state
    \<Rightarrow> (exn + response) \<times> 'w state" where
  "get X resource hdrs st = request X ''GET'' resource PNone hdrs st"

definition delete :: "'w externals \<Rightarrow> string \<Rightarrow> addr option \<Rightarrow> 'w state
    \<Rightarrow> (exn + response) \<times> 'w state" where
  "delete X resource hdrs st = request X ''DELETE'' resource PNone hdrs st"

definition post :: "'w externals \<Rightarrow> string \<Rightarrow> pyval \<Rightarrow> addr option \<Rightarrow> 'w state
    \<Rightarrow> (exn + response) \<times> 'w state" where
  "post X resource d hdrs st = request X ''POST'' resource d hdrs st"

definition put :: "'w externals \<Rightarrow> string \<Rightarrow> pyval \<Rightarrow> addr option \<Rightarrow> 'w state
    \<Rightarrow> (exn + response) \<times> 'w state" where
  "put X resource d hdrs st = request X ''PUT'' resource d hdrs st"

text \<open>A call of one of the four public methods, with its arguments.\<close>

datatype verb_call =
    Get string "addr option"
  | Delete string "addr option"
  | Post string pyval "addr option"
  | Put string pyval "addr option"

fun call :: "'w externals \<Rightarrow> verb_call \<Rightarrow> 'w state \<Rightarrow> (exn + response) \<times> 'w state" where
  "call X (Get resource hdrs) st = get X resource hdrs st"
| "call X (Delete resource hdrs) st = delete X resource hdrs st"
| "call X (Post resource d hdrs) st = post X resource d hdrs st"
| "call X (Put resource d hdrs) st = put X resource d hdrs st"

fun verb_method :: "verb_call \<Rightarrow> string" where
  \<comment> \<open>the method name that the public method passes to \<^verbatim>\<open>__request\<close>\<close>
  "verb_method (Get resource hdrs) = ''GET''"
| "verb_method (Delete resource hdrs) = ''DELETE''"
| "verb_method (Post resource d hdrs) = ''POST''"
| "verb_method (Put resource d hdrs) = ''PUT''"

fun caller_data :: "verb_call \<Rightarrow> pyval" where
  \<comment> \<open>the \<^verbatim>\<open>data\<close> argument of a call; \<^verbatim>\<open>get\<close> and \<^verbatim>\<open>delete\<close> leave it at \<^verbatim>\<open>None\<close>\<close>
  "caller_data (Get resource hdrs) = PNone"
| "caller_data (Delete resource hdrs) = PNone"
| "caller_data (Post resource d hdrs) = d"
| "caller_data (Put resource d hdrs) = d"

fun caller_headers :: "verb_call \<Rightarrow> addr option" where
  \<comment> \<open>the \<^verbatim>\<open>headers\<close> argument of a call\<close>
  "caller_headers (Get resource hdrs) = hdrs"
| "caller_headers (Delete resource hdrs) = hdrs"
| "caller_headers (Post resource d hdrs) = hdrs"
| "caller_headers (Put resource d hdrs) = hdrs"

fun caller_resource :: "verb_call \<Rightarrow> string" where
  \<comment> \<open>the \<^verbatim>\<open>resource\<close> argument of a call\<close>
  "caller_resource (Get resource hdrs) = resource"
| "caller_resource (Delete resource hdrs) = resource"
| "caller_resource (Post resource d hdrs) = resource"
| "caller_resource (Put resource d hdrs) = resource"

abbreviation sent :: "'w externals \<Rightarrow> verb_call \<Rightarrow> 'w state \<Rightarrow> exn + (http_request \<times> heap)" where
  "sent X vc st \<equiv>
     build_request (urllib X) (self st) (verb_method vc) (caller_resource vc) (caller_data vc)
       (caller_headers vc) (objects st)"

text \<open>
  The life of a client after its construction is a sequence of such calls, each starting
  in the state the one before it left.
\<close>

fun calls :: "'w externals \<Rightarrow> verb_call list \<Rightarrow> 'w state \<Rightarrow> 'w state" where
  "calls X [] st = st"
| "calls X (vc # vcs) st = calls X vcs (snd (call X vc st))"

text \<open>
  Text that \<^verbatim>\<open>urljoin\<close> copies unchanged: \<open>url_text\<close> has no query, fragment or
  parameter delimiter and no tab or line break; \<open>host_text\<close> is a non-empty ASCII network
  location without slash or bracket; \<open>segment_text\<close> is one path segment that is not
  empty, \<^verbatim>\<open>.\<close> or \<^verbatim>\<open>..\<close>; \<open>tidy_path\<close> is a relative path whose segments are like
  that, except that the last one may be empty.
\<close>

definition url_text :: "string \<Rightarrow> bool" where
  "url_text s =
     (\<forall>c \<in> set s. c \<notin> set ''?#;'' \<and> c \<noteq> CHR 0x09 \<and> c \<noteq> CHR 0x0A \<and> c \<noteq> CHR 0x0D)"

definition host_text :: "string \<Rightarrow> bool" where
  "host_text s =
     (s \<noteq> [] \<and> url_text s \<and> (\<forall>c \<in> set s. c \<notin> set ''/[]'' \<and> (of_char c :: nat) < 128))"

definition segment_text :: "string \<Rightarrow> bool" where
  "segment_text s =
     (s \<noteq> [] \<and> s \<noteq> ''.'' \<and> s \<noteq> ''..'' \<and> url_text s \<and> CHR ''/'' \<notin> set s)"

definition tidy_path :: "string \<Rightarrow> bool" where
  "tidy_path p =
     (url_text p
      \<and> (\<forall>s \<in> set (butlast (split_on (CHR ''/'') p)). s \<noteq> [])
      \<and> (\<forall>s \<in> set (split_on (CHR ''/'') p). s \<noteq> ''.'' \<and> s \<noteq> ''..''))"

text \<open>
  A concrete setting for examples. The caller has a dictionary of headers of its own at
  address 0 and then builds a client by \<^verbatim>\<open>ApiClient('secret')\<close> in an empty
  environment, which puts the default headers at address 1. The HTTP library is one that
  gives every request the same outcome and keeps a log of the requests it was given; the
  checks of \<^verbatim>\<open>urllib.parse\<close> accept.
\<close>

definition accept_all :: urllib_checks where
  "accept_all = \<lparr>check_bracketed_host = (\<lambda>_. True), checknetloc_nfkc = (\<lambda>_. True)\<rparr>"

definition recording :: "(request_exception + response) \<Rightarrow> http_request list externals" where
  "recording outcome =
     \<lparr>requests_request = (\<lambda>rq log. (outcome, log @ [rq])), urllib = accept_all\<rparr>"

definition caller_dict :: dict where
  "caller_dict = [''Accept'' \<mapsto> ''text/csv'', ''X-Trace'' \<mapsto> ''7'']"

definition caller_heap :: heap where
  "caller_heap = \<lparr>cells = (\<lambda>_. Map.empty)(0 := caller_dict), lim = 1\<rparr>"

definition example_client :: "bool \<Rightarrow> ApiClient" where
  "example_client rfs =
     \<lparr>token = ''secret'', url = ''https://bhexpress.cl'', headers = 1, version = ''v1'',
      raise_for_status = rfs\<rparr>"

definition example_heap :: heap where
  "example_heap =
     \<lparr>cells = (\<lambda>_. Map.empty)(0 := caller_dict, 1 := generate_headers ''secret''), lim = 2\<rparr>"

definition example_state :: "bool \<Rightarrow> http_request list state" where
  "example_state rfs = \<lparr>self = example_client rfs, objects = example_heap, world = []\<rparr>"

text \<open>
  What a call on the example state with resource \<^verbatim>\<open>/dte\<close> and no headers of the
  caller's passes to the library, for a method and a body, and the heap such a call leaves:
  the empty dictionary of \<^verbatim>\<open>headers or {}\<close> at address 2, the merged headers at
  address 3.
\<close>

definition example_request :: "string \<Rightarrow> pyval \<Rightarrow> http_request" where
  "example_request m d =
     \<lparr>req_method = m, req_url = ''https://bhexpress.cl/api/v1/dte'', req_data = d,
      req_headers = generate_headers ''secret''\<rparr>"

definition example_heap_after :: heap where
  "example_heap_after =
     \<lparr>cells = (\<lambda>_. Map.empty)(0 := caller_dict, 1 := generate_headers ''secret'',
                2 := Map.empty, 3 := generate_headers ''secret''),
      lim = 4\<rparr>"

section \<open>Strings\<close>

lemma in_C0: "c \<in> set WHATWG_C0_CONTROL_OR_SPACE \<longleftrightarrow> (of_char c :: nat) < 33"
proof
  assume "c \<in> set WHATWG_C0_CONTROL_OR_SPACE"
  then obtain n :: nat where n: "n < 33" "c = char_of n"
    by (auto simp: WHATWG_C0_CONTROL_OR_SPACE_def)
  then show "(of_char c :: nat) < 33" by simp
next
  assume "(of_char c :: nat) < 33"
  then have "(of_char c :: nat) \<in> {0 ..< 33}" by simp
  then have "char_of (of_char c :: nat) \<in> char_of ` {0 ..< (33::nat)}" by (rule imageI)
  then show "c \<in> set WHATWG_C0_CONTROL_OR_SPACE"
    by (simp add: WHATWG_C0_CONTROL_OR_SPACE_def)
qed

lemma find_char_None: "find_char c s = None \<longleftrightarrow> c \<notin> set s"
  by (induction s) auto

lemma find_char_append:
  "c \<notin> set a \<Longrightarrow> find_char c (a @ b) = map_option (\<lambda>i. i + length a) (find_char c b)"
  by (induction a) (auto simp: option.map_comp comp_def option.map_ident)

lemma split_on_ne: "split_on c s \<noteq> []"
  by (induction s) auto

lemma split_on_append: "c \<notin> set a \<Longrightarrow> split_on c (a @ c # b) = a # split_on c b"
  by (induction a) auto

lemma split_on_replicate: "split_on c (replicate n c) = replicate (Suc n) []"
  by (induction n) auto

lemma join_with_Cons: "join_with sep ((x # y) # ys) = x # join_with sep (y # ys)"
  by (cases ys) auto

lemma join_split: "join_with [c] (split_on c s) = s"
proof (induction s)
  case Nil
  then show ?case by simp
next
  case (Cons x xs)
  obtain y ys where ys: "split_on c xs = y # ys"
    using split_on_ne [of c xs] by (cases "split_on c xs") auto
  show ?case
    using Cons ys by (auto simp: join_with_Cons)
qed

lemma split_dirs:
  assumes "c \<notin> set d0" and "\<forall>d \<in> set dirs. c \<notin> set d"
  shows "split_on c (d0 @ concat (map ((#) c) dirs) @ replicate (Suc n) c) =
           d0 # dirs @ replicate (Suc n) []"
  using assms
proof (induction dirs arbitrary: d0)
  case Nil
  then show ?case
    by (simp add: split_on_append split_on_replicate)
next
  case (Cons d dirs)
  have "split_on c (d0 @ c # (d @ concat (map ((#) c) dirs) @ replicate (Suc n) c)) =
          d0 # split_on c (d @ concat (map ((#) c) dirs) @ replicate (Suc n) c)"
    using Cons.prems(1) by (rule split_on_append)
  moreover have "split_on c (d @ concat (map ((#) c) dirs) @ replicate (Suc n) c) =
          d # dirs @ replicate (Suc n) []"
    using Cons.IH [of d] Cons.prems(2) by simp
  ultimately show ?case by simp
qed

lemma join_dirs:
  assumes "segs \<noteq> []"
  shows "join_with [c] (d0 # dirs @ segs) =
           d0 @ concat (map ((#) c) dirs) @ c # join_with [c] segs"
  using assms
proof (induction dirs arbitrary: d0)
  case Nil
  then show ?case by (cases segs) auto
next
  case (Cons d dirs)
  then show ?case by simp
qed

lemma fold_resolve_plain:
  "\<forall>s \<in> set xs. s \<noteq> ''.'' \<and> s \<noteq> ''..'' \<Longrightarrow> fold resolve_step xs acc = acc @ xs"
  by (induction xs arbitrary: acc) (auto simp: resolve_step_def)

lemma filter_middle_dirs:
  assumes "segs \<noteq> []" and "\<forall>d \<in> set dirs. d \<noteq> []" and "\<forall>s \<in> set (butlast segs). s \<noteq> []"
  shows "filter_middle (([] # dirs @ replicate (Suc n) []) @ segs) = [] # dirs @ segs"
proof -
  let ?rest = "dirs @ replicate (Suc n) [] @ segs"
  have ne: "?rest \<noteq> []" by simp
  have bl: "butlast ?rest = dirs @ replicate (Suc n) [] @ butlast segs"
    using assms(1) by (simp add: butlast_append)
  have la: "last ?rest = last segs"
    using assms(1) by simp
  have fl: "filter (\<lambda>s. s \<noteq> []) (butlast ?rest) = dirs @ butlast segs"
    using assms(2,3) unfolding bl by (simp add: filter_id_conv)
  have "filter_middle ([] # ?rest) = [] # filter (\<lambda>s. s \<noteq> []) (butlast ?rest) @ [last ?rest]"
    using ne by (cases ?rest) (auto simp: filter_middle_def)
  also have "\<dots> = [] # dirs @ butlast segs @ [last segs]"
    unfolding fl la by simp
  also have "\<dots> = [] # dirs @ segs"
    using assms(1) by simp
  finally show ?thesis by simp
qed

lemma remove_unsafe_id: "url_text s \<Longrightarrow> remove_unsafe s = s"
  by (auto simp: remove_unsafe_def remove_char_def url_text_def filter_id_conv)

lemma url_text_append: "url_text (a @ b) \<longleftrightarrow> url_text a \<and> url_text b"
  by (auto simp: url_text_def)

lemma url_text_Cons:
  "url_text (x # b) \<longleftrightarrow>
     (x \<notin> set ''?#;'' \<and> x \<noteq> CHR 0x09 \<and> x \<noteq> CHR 0x0A \<and> x \<noteq> CHR 0x0D) \<and> url_text b"
  by (auto simp: url_text_def)

lemma url_text_Nil: "url_text []"
  by (simp add: url_text_def)

lemma splitnetloc_host:
  assumes "CHR ''/'' \<notin> set host" "CHR ''?'' \<notin> set host" "CHR ''#'' \<notin> set host"
      and "CHR ''?'' \<notin> set rest" "CHR ''#'' \<notin> set rest"
  shows "splitnetloc (''//'' @ host @ CHR ''/'' # rest) 2 = (host, CHR ''/'' # rest)"
proof -
  have f1: "find_char (CHR ''/'') (host @ CHR ''/'' # rest) = Some (length host)"
    using assms(1) by (simp add: find_char_append)
  have f2: "find_char (CHR ''?'') (host @ CHR ''/'' # rest) = None"
    using assms(2,4) by (simp add: find_char_None)
  have f3: "find_char (CHR ''#'') (host @ CHR ''/'' # rest) = None"
    using assms(3,5) by (simp add: find_char_None)
  show ?thesis
    by (simp add: splitnetloc_def find_from_def f1 f2 f3)
qed

lemma split_tail_plain:
  assumes "url_text u" and "netloc = [] \<or> (\<forall>c \<in> set netloc. (of_char c :: nat) < 128)"
  shows "split_tail L sch netloc u = Inr (sch, netloc, u, [], [])"
  using assms by (auto simp: split_tail_def url_text_def checknetloc_def)

section \<open>Joining a relative path to a base URL\<close>

lemma split_scheme_http:
  "split_scheme dflt (''http://'' @ t) = (''http'', ''//'' @ t)"
  by (simp add: split_scheme_def is_ascii_alpha_def scheme_chars_def ascii_lower_def)

lemma split_scheme_https:
  "split_scheme dflt (''https://'' @ t) = (''https'', ''//'' @ t)"
  by (simp add: split_scheme_def is_ascii_alpha_def scheme_chars_def ascii_lower_def)

lemma split_authority_host:
  assumes "host_text host" and "url_text rest"
  shows "split_authority L sch (''//'' @ host @ CHR ''/'' # rest) =
           Inr (sch, host, CHR ''/'' # rest, [], [])"
proof -
  have h: "CHR ''/'' \<notin> set host" "CHR ''?'' \<notin> set host" "CHR ''#'' \<notin> set host"
          "CHR ''['' \<notin> set host" "CHR '']'' \<notin> set host"
          "\<forall>c \<in> set host. (of_char c :: nat) < 128"
    using assms(1) by (auto simp: host_text_def url_text_def)
  have r: "CHR ''?'' \<notin> set rest" "CHR ''#'' \<notin> set rest"
    using assms(2) by (auto simp: url_text_def)
  have sn: "splitnetloc (''//'' @ host @ CHR ''/'' # rest) 2 = (host, CHR ''/'' # rest)"
    using h(1-3) r by (rule splitnetloc_host)
  have st: "split_tail L sch host (CHR ''/'' # rest) = Inr (sch, host, CHR ''/'' # rest, [], [])"
    using assms(2) h(6) by (intro split_tail_plain) (auto simp: url_text_Cons)
  have t2: "take 2 (''//'' @ host @ CHR ''/'' # rest) = ''//''" by simp
  show ?thesis
    unfolding split_authority_def t2 sn using h(4,5) st by simp
qed

lemma split_scheme_web:
  assumes "sch = ''http'' \<or> sch = ''https''"
  shows "split_scheme dflt (sch @ ''://'' @ t) = (sch, ''//'' @ t)"
  using assms split_scheme_http [of dflt t] split_scheme_https [of dflt t] by auto

lemma web_scheme_text:
  assumes "sch = ''http'' \<or> sch = ''https''"
  shows "url_text sch" and "\<forall>c \<in> set sch. \<not> (of_char c :: nat) < 33" and "sch \<noteq> []"
  using assms by (auto simp: url_text_def)

lemma lstrip_C0_id:
  assumes "s \<noteq> []" and "\<not> (of_char (hd s) :: nat) < 33"
  shows "lstrip_chars WHATWG_C0_CONTROL_OR_SPACE s = s"
  using assms by (cases s) (auto simp: lstrip_chars_def in_C0)

lemma strip_C0_id:
  assumes "\<forall>c \<in> set s. \<not> (of_char c :: nat) < 33"
  shows "strip_chars WHATWG_C0_CONTROL_OR_SPACE s = s"
proof -
  have "dropWhile (\<lambda>c. c \<in> set WHATWG_C0_CONTROL_OR_SPACE) s = s"
    using assms by (cases s) (auto simp: in_C0)
  moreover have "dropWhile (\<lambda>c. c \<in> set WHATWG_C0_CONTROL_OR_SPACE) (rev s) = rev s"
    using assms by (cases "rev s") (auto simp: in_C0 dest: arg_cong [where f = set])
  ultimately show ?thesis by (simp add: strip_chars_def)
qed


lemma urlsplit_steps:
  assumes "remove_unsafe (lstrip_chars WHATWG_C0_CONTROL_OR_SPACE u) = u1"
      and "remove_unsafe (strip_chars WHATWG_C0_CONTROL_OR_SPACE s) = s1"
      and "split_scheme s1 u1 = (s2, u2)"
  shows "urlsplit L u s = split_authority L s2 u2"
  using assms by (simp add: urlsplit_def)

lemma urlsplit_base:
  assumes "sch = ''http'' \<or> sch = ''https''" and "host_text host" and "url_text rest"
  shows "urlsplit L (sch @ ''://'' @ host @ CHR ''/'' # rest) [] =
           Inr (sch, host, CHR ''/'' # rest, [], [])"
proof -
  let ?u = "sch @ ''://'' @ host @ CHR ''/'' # rest"
  have ut: "url_text ?u"
    using web_scheme_text(1) [OF assms(1)] assms(2,3)
    by (simp add: url_text_append url_text_Cons host_text_def)
  have hd: "\<not> (of_char (hd ?u) :: nat) < 33" and ne: "?u \<noteq> []"
    using assms(1) by auto
  have ls: "lstrip_chars WHATWG_C0_CONTROL_OR_SPACE ?u = ?u"
    using ne hd by (rule lstrip_C0_id)
  have u1: "remove_unsafe (lstrip_chars WHATWG_C0_CONTROL_OR_SPACE ?u) = ?u"
    unfolding ls using ut by (rule remove_unsafe_id)
  have s1: "remove_unsafe (strip_chars WHATWG_C0_CONTROL_OR_SPACE []) = []"
    by (simp add: remove_unsafe_def strip_chars_def remove_char_def)
  have sc: "split_scheme [] ?u = (sch, ''//'' @ host @ CHR ''/'' # rest)"
    using assms(1) by (rule split_scheme_web)
  have "urlsplit L ?u [] = split_authority L sch (''//'' @ host @ CHR ''/'' # rest)"
    using u1 s1 sc by (rule urlsplit_steps)
  also have "\<dots> = Inr (sch, host, CHR ''/'' # rest, [], [])"
    using assms(2,3) by (rule split_authority_host)
  finally show ?thesis .
qed

lemma split_scheme_api: "split_scheme dflt (''api/'' @ p) = (dflt, ''api/'' @ p)"
  by (cases "find_char (CHR '':'') p") (simp_all add: split_scheme_def scheme_chars_def)

lemma urlsplit_relative:
  assumes "sch = ''http'' \<or> sch = ''https''" and "url_text p"
  shows "urlsplit L (''api/'' @ p) sch = Inr (sch, [], ''api/'' @ p, [], [])"
proof -
  let ?u = "''api/'' @ p"
  have ut: "url_text ?u"
    using assms(2) by (simp add: url_text_Cons)
  have ls: "lstrip_chars WHATWG_C0_CONTROL_OR_SPACE ?u = ?u"
    by (rule lstrip_C0_id) simp_all
  have u1: "remove_unsafe (lstrip_chars WHATWG_C0_CONTROL_OR_SPACE ?u) = ?u"
    unfolding ls using ut by (rule remove_unsafe_id)
  have s1: "remove_unsafe (strip_chars WHATWG_C0_CONTROL_OR_SPACE sch) = sch"
    using strip_C0_id [OF web_scheme_text(2) [OF assms(1)]]
      remove_unsafe_id [OF web_scheme_text(1) [OF assms(1)]] by simp
  have sc: "split_scheme sch ?u = (sch, ?u)" by (rule split_scheme_api)
  have "urlsplit L ?u sch = split_authority L sch ?u"
    using u1 s1 sc by (rule urlsplit_steps)
  also have "\<dots> = split_tail L sch [] ?u"
    by (simp add: split_authority_def)
  also have "\<dots> = Inr (sch, [], ?u, [], [])"
    using ut by (intro split_tail_plain) simp_all
  finally show ?thesis .
qed

lemma urlparse_plain:
  assumes "urlsplit L u sch = Inr (s, netloc, p, [], [])" and "url_text p"
  shows "urlparse L u sch = Inr (s, netloc, p, [], [], [])"
  using assms by (auto simp: urlparse_def url_text_def)

lemma dirs_text:
  assumes "\<forall>d \<in> set dirs. segment_text d"
  shows "url_text (concat (map ((#) (CHR ''/'')) dirs))"
  using assms
  by (induction dirs) (simp_all add: url_text_Nil url_text_append url_text_Cons segment_text_def)

lemma slashes_text: "url_text (replicate n (CHR ''/''))"
  by (induction n) (simp_all add: url_text_Nil url_text_Cons)

lemma urlunparse_plain:
  assumes "sch = ''http'' \<or> sch = ''https''" and "host \<noteq> []" and "take 1 p = ''/''"
  shows "urlunparse (sch, host, p, [], [], []) = sch @ ''://'' @ host @ p"
  using assms by (auto simp: urlunparse_def urlunsplit_def)

lemma web_scheme_lists:
  assumes "sch = ''http'' \<or> sch = ''https''"
  shows "sch \<in> set uses_relative" and "sch \<in> set uses_netloc"
  using assms by (auto simp: uses_relative_def uses_netloc_def)

lemma urljoin_steps:
  assumes "base \<noteq> []" and "u \<noteq> []"
      and "urlparse L base [] = Inr (sch, host, bpath, [], [], [])"
      and "urlparse L u sch = Inr (sch, [], u, [], [], [])"
      and "sch \<in> set uses_relative" and "sch \<in> set uses_netloc"
      and "take 1 u \<noteq> ''/''"
      and "last (split_on (CHR ''/'') bpath) = []"
      and "filter_middle (split_on (CHR ''/'') bpath @ split_on (CHR ''/'') u) = segments"
      and "last segments \<noteq> ''.''" and "last segments \<noteq> ''..''"
      and "join_with ''/'' (fold resolve_step segments []) = joined" and "joined \<noteq> []"
  shows "urljoin L base u = Inr (urlunparse (sch, host, joined, [], [], []))"
  unfolding urljoin_def
  using assms by (simp only: Let_def if_False if_True sum.case prod.case simp_thms refl)

lemma lstrip_slash_api: "lstrip_chars ''/'' (''/api/'' @ p) = ''api/'' @ p"
  by (simp add: lstrip_chars_def)

lemma full_url_plain:
  assumes u: "url c = sch @ ''://'' @ host @ concat (map ((#) (CHR ''/'')) dirs) @ replicate n (CHR ''/'')"
      and sch: "sch = ''http'' \<or> sch = ''https''"
      and host: "host_text host"
      and dirs: "\<forall>d \<in> set dirs. segment_text d"
      and tidy: "tidy_path (''api/'' @ version c @ resource)"
  shows "full_url L c resource =
           Inr (sch @ ''://'' @ host @ concat (map ((#) (CHR ''/'')) dirs)
                  @ ''/api/'' @ version c @ resource)"
proof -
  let ?rel = "''api/'' @ version c @ resource"
  let ?bpath = "concat (map ((#) (CHR ''/'')) dirs) @ replicate (Suc n) (CHR ''/'')"
  let ?base = "sch @ ''://'' @ host @ ?bpath"
  let ?segs = "split_on (CHR ''/'') ?rel"
  let ?joined = "concat (map ((#) (CHR ''/'')) dirs) @ CHR ''/'' # ?rel"
  have rel_text: "url_text ?rel" using tidy by (simp add: tidy_path_def)
  have base: "url c @ ''/'' = ?base"
    unfolding u by (simp add: replicate_append_same)
  have bpath_text: "url_text ?bpath"
    using dirs_text [OF dirs] slashes_text [of "Suc n"] by (simp only: url_text_append simp_thms)
  obtain rest where rest: "?bpath = CHR ''/'' # rest"
    by (cases dirs) auto
  have rest_text: "url_text rest"
    using bpath_text unfolding rest by (simp add: url_text_Cons)
  have "urlsplit L ?base [] = Inr (sch, host, ?bpath, [], [])"
    unfolding rest using sch host rest_text by (rule urlsplit_base)
  then have pb: "urlparse L ?base [] = Inr (sch, host, ?bpath, [], [], [])"
    using bpath_text by (rule urlparse_plain)
  have "urlsplit L ?rel sch = Inr (sch, [], ?rel, [], [])"
  proof -
    have "url_text (version c @ resource)" using rel_text by (simp add: url_text_Cons)
    with sch show ?thesis by (rule urlsplit_relative)
  qed
  then have pr: "urlparse L ?rel sch = Inr (sch, [], ?rel, [], [], [])"
    using rel_text by (rule urlparse_plain)
  have no_slash: "\<forall>d \<in> set dirs. CHR ''/'' \<notin> set d"
    using dirs by (simp add: segment_text_def)
  have sp: "split_on (CHR ''/'') ?bpath = [] # dirs @ replicate (Suc n) []"
    using split_dirs [of "CHR ''/''" "[]" dirs n] no_slash by simp
  have last_sp: "last (split_on (CHR ''/'') ?bpath) = []"
    unfolding sp by simp
  have segs_ne: "?segs \<noteq> []" by (rule split_on_ne)
  have dirs_ne: "\<forall>d \<in> set dirs. d \<noteq> []"
    using dirs by (simp add: segment_text_def)
  have mid: "\<forall>s \<in> set (butlast ?segs). s \<noteq> []"
    using tidy by (simp add: tidy_path_def)
  have fm: "filter_middle (split_on (CHR ''/'') ?bpath @ ?segs) = [] # dirs @ ?segs"
    unfolding sp using segs_ne dirs_ne mid by (rule filter_middle_dirs)
  have dots: "\<forall>s \<in> set ?segs. s \<noteq> ''.'' \<and> s \<noteq> ''..''"
    using tidy by (simp add: tidy_path_def)
  have last_segs: "last ([] # dirs @ ?segs) = last ?segs"
    using segs_ne by simp
  have last_in: "last ?segs \<in> set ?segs"
    using segs_ne by (rule last_in_set)
  have l1: "last ([] # dirs @ ?segs) \<noteq> ''.''" and l2: "last ([] # dirs @ ?segs) \<noteq> ''..''"
    unfolding last_segs using dots last_in by blast+
  have plain: "\<forall>s \<in> set ([] # dirs @ ?segs). s \<noteq> ''.'' \<and> s \<noteq> ''..''"
    using dots dirs by (auto simp: segment_text_def)
  have "fold resolve_step ([] # dirs @ ?segs) [] = [] # dirs @ ?segs"
    using fold_resolve_plain [OF plain, of "[]"] by simp
  then have jn: "join_with ''/'' (fold resolve_step ([] # dirs @ ?segs) []) = ?joined"
    using join_dirs [OF segs_ne, of "CHR ''/''" "[]" dirs] join_split [of "CHR ''/''" ?rel]
    by simp
  have jne: "?joined \<noteq> []" by simp
  have t1: "take 1 ?rel \<noteq> ''/''" by simp
  have bne: "?base \<noteq> []" using sch by auto
  have rne: "?rel \<noteq> []" by simp
  have "urljoin L ?base ?rel = Inr (urlunparse (sch, host, ?joined, [], [], []))"
    using bne rne pb pr web_scheme_lists [OF sch] t1 last_sp fm l1 l2 jn jne
    by (rule urljoin_steps)
  moreover have "urlunparse (sch, host, ?joined, [], [], []) = sch @ ''://'' @ host @ ?joined"
  proof (rule urlunparse_plain [OF sch])
    show "host \<noteq> []" using host by (simp add: host_text_def)
    show "take 1 ?joined = ''/''" by (cases dirs) auto
  qed
  ultimately have "urljoin L (url c @ ''/'') ?rel =
      Inr (sch @ ''://'' @ host @ concat (map ((#) (CHR ''/'')) dirs) @ ''/api/'' @ version c @ resource)"
    unfolding base by simp
  then show ?thesis
    unfolding full_url_def Let_def lstrip_slash_api [of "version c @ resource", simplified] 
    by (simp add: lstrip_slash_api [simplified])
qed

section \<open>How a call runs\<close>

lemma call_request:
  "call X vc st =
     request X (verb_method vc) (caller_resource vc) (caller_data vc) (caller_headers vc) st"
  by (cases vc) (simp_all add: get_def delete_def post_def put_def)

lemma call_not_sent:
  assumes "sent X vc st = Inl e"
  shows "call X vc st = (Inl e, st)"
  using assms by (simp add: call_request request_def)

lemma call_sent:
  assumes "sent X vc st = Inr (rq, h1)"
  shows "call X vc st = dispatch X rq (st\<lparr>objects := h1\<rparr>)"
  using assms by (simp add: call_request request_def)

lemma dispatch_unfold:
  "dispatch X rq st =
     ((case fst (requests_request X rq (world st)) of
         Inr r \<Rightarrow> check_and_return_response (self st) r
       | Inl error \<Rightarrow> Inl (except_clauses error)),
      st\<lparr>world := snd (requests_request X rq (world st))\<rparr>)"
  by (simp add: dispatch_def Let_def split: prod.splits sum.splits)

lemma call_response:
  assumes "sent X vc st = Inr (rq, h1)"
      and "fst (requests_request X rq (world st)) = Inr r"
  shows "fst (call X vc st) = check_and_return_response (self st) r"
  using assms by (simp add: call_sent dispatch_unfold)

lemma call_failure:
  assumes "sent X vc st = Inr (rq, h1)"
      and "fst (requests_request X rq (world st)) = Inl error"
  shows "fst (call X vc st) = Inl (except_clauses error)"
  using assms by (simp add: call_sent dispatch_unfold)

lemma call_world:
  assumes "sent X vc st = Inr (rq, h1)"
  shows "world (snd (call X vc st)) = snd (requests_request X rq (world st))"
  using assms by (simp add: call_sent dispatch_unfold)

lemma call_objects:
  assumes "sent X vc st = Inr (rq, h1)"
  shows "objects (snd (call X vc st)) = h1"
  using assms by (simp add: call_sent dispatch_unfold)

lemma call_self: "self (snd (call X vc st)) = self st"
  by (cases "sent X vc st") (auto simp: call_not_sent call_sent dispatch_unfold)

lemma build_request_parts:
  assumes "build_request L c m res d hdrs h = Inr (rq, h1)"
  shows "h1 = snd (merge_headers c hdrs h)"
    and "req_headers rq = cells h1 (fst (merge_headers c hdrs h))"
    and "req_data rq = encode_data d"
    and "req_method rq = m"
    and "full_url L c res = Inr (req_url rq)"
  using assms
  by (auto simp: build_request_def split: sum.splits prod.splits)

lemma build_request_url:
  assumes "full_url L c res = Inr fu"
  shows "build_request L c m res d hdrs h =
           Inr (\<lparr>req_method = m, req_url = fu, req_data = encode_data d,
                 req_headers = cells (snd (merge_headers c hdrs h)) (fst (merge_headers c hdrs h))\<rparr>,
                snd (merge_headers c hdrs h))"
  using assms by (simp add: build_request_def split: prod.splits)

subsection \<open>Dictionaries on the heap\<close>

lemma merge_headers_old:
  "a < lim h \<Longrightarrow> cells (snd (merge_headers c hdrs h)) a = cells h a"
  by (auto simp: merge_headers_def heap_alloc_def split: option.splits prod.splits)

lemma merge_headers_lim: "lim h \<le> lim (snd (merge_headers c hdrs h))"
  by (auto simp: merge_headers_def heap_alloc_def split: option.splits prod.splits)

lemma merge_headers_fresh:
  "lim h \<le> fst (merge_headers c hdrs h)"
  "fst (merge_headers c hdrs h) < lim (snd (merge_headers c hdrs h))"
  by (auto simp: merge_headers_def heap_alloc_def split: option.splits prod.splits)

lemma merge_headers_contents:
  assumes "headers c < lim h"
  shows "cells (snd (merge_headers c hdrs h)) (fst (merge_headers c hdrs h)) =
           cells h (headers c) ++ (case hdrs of None \<Rightarrow> Map.empty | Some a \<Rightarrow> cells h a)"
  using assms
  by (auto simp: merge_headers_def heap_alloc_def split: option.splits prod.splits)

lemma call_old_cells:
  assumes "a < lim (objects st)"
  shows "cells (objects (snd (call X vc st))) a = cells (objects st) a"
proof (cases "sent X vc st")
  case (Inl e)
  then show ?thesis by (simp add: call_not_sent)
next
  case (Inr p)
  obtain rq h1 where p: "p = (rq, h1)" by (cases p)
  have h1: "h1 = snd (merge_headers (self st) (caller_headers vc) (objects st))"
    using build_request_parts(1) Inr p by blast
  have "objects (snd (call X vc st)) = h1"
    using Inr p by (simp add: call_objects)
  then show ?thesis using h1 assms by (simp add: merge_headers_old)
qed

lemma call_lim: "lim (objects st) \<le> lim (objects (snd (call X vc st)))"
proof (cases "sent X vc st")
  case (Inl e)
  then show ?thesis by (simp add: call_not_sent)
next
  case (Inr p)
  obtain rq h1 where p: "p = (rq, h1)" by (cases p)
  have h1: "h1 = snd (merge_headers (self st) (caller_headers vc) (objects st))"
    using build_request_parts(1) Inr p by blast
  have "objects (snd (call X vc st)) = h1"
    using Inr p by (simp add: call_objects)
  then show ?thesis using h1 by (simp add: merge_headers_lim)
qed

lemma init_headers:
  assumes "init env tok u ver rfs h = Inr (c, h0)"
  shows "headers c < lim h0" and "cells h0 (headers c) = generate_headers (token c)"
    and "lim h \<le> headers c" and "\<forall>a < lim h. cells h0 a = cells h a"
  using assms
  by (auto simp: init_def heap_alloc_def Let_def split: sum.splits prod.splits)

lemma calls_keep:
  assumes "headers (self st) < lim (objects st)"
  shows "self (calls X vcs st) = self st
       \<and> headers (self st) < lim (objects (calls X vcs st))
       \<and> cells (objects (calls X vcs st)) (headers (self st))
           = cells (objects st) (headers (self st))"
  using assms
proof (induction vcs arbitrary: st)
  case Nil
  then show ?case by simp
next
  case (Cons vc vcs)
  let ?st1 = "snd (call X vc st)"
  have self1: "self ?st1 = self st" by (rule call_self)
  have "headers (self st) < lim (objects ?st1)"
    using Cons.prems call_lim [of st X vc] by (rule order.strict_trans2)
  then have lt: "headers (self ?st1) < lim (objects ?st1)"
    by (simp only: self1)
  have old: "cells (objects ?st1) (headers (self st)) = cells (objects st) (headers (self st))"
    using Cons.prems by (rule call_old_cells)
  show ?case
    using Cons.IH [OF lt] old by (simp add: self1)
qed

lemma example_init:
  "init Map.empty (Some ''secret'') None None rfs caller_heap =
     Inr (example_client rfs, example_heap)"
  by (simp add: init_def validate_token_def validate_url_def str_truthy_def strip_def
        is_space_def DEFAULT_URL_def DEFAULT_VERSION_def heap_alloc_def caller_heap_def
        example_client_def example_heap_def ApiException_init_def)

lemma example_full_url:
  "full_url accept_all (example_client rfs) ''/dte'' = Inr ''https://bhexpress.cl/api/v1/dte''"
proof -
  have "full_url accept_all (example_client rfs) ''/dte'' =
          Inr (''https'' @ ''://'' @ ''bhexpress.cl'' @ concat (map ((#) (CHR ''/'')) [])
                 @ ''/api/'' @ version (example_client rfs) @ ''/dte'')"
  proof (rule full_url_plain [where n = 0])
    show "url (example_client rfs) =
            ''https'' @ ''://'' @ ''bhexpress.cl'' @ concat (map ((#) (CHR ''/'')) []) @ replicate 0 (CHR ''/'')"
      by (simp add: example_client_def)
    show "''https'' = ''http'' \<or> ''https'' = ''https''" by simp
    show "host_text ''bhexpress.cl''" by (simp add: host_text_def url_text_def)
    show "\<forall>d \<in> set []. segment_text d" by simp
    show "tidy_path (''api/'' @ version (example_client rfs) @ ''/dte'')"
      by (simp add: tidy_path_def url_text_def example_client_def)
  qed
  then show ?thesis by (simp add: example_client_def)
qed

lemma example_dotdot:
  "full_url accept_all (example_client rfs) ''/../dte'' = Inr ''https://bhexpress.cl/api/dte''"
proof -
  let ?base = "''https'' @ ''://'' @ ''bhexpress.cl'' @ CHR ''/'' # []"
  let ?rel = "''api/'' @ ''v1/../dte''"
  have web: "''https'' = ''http'' \<or> ''https'' = ''https''" by simp
  have host: "host_text ''bhexpress.cl''" by (simp add: host_text_def url_text_def)
  have "urlsplit accept_all ?base [] = Inr (''https'', ''bhexpress.cl'', CHR ''/'' # [], [], [])"
    using web host url_text_Nil by (rule urlsplit_base)
  then have pb: "urlparse accept_all ?base [] = Inr (''https'', ''bhexpress.cl'', ''/'', [], [], [])"
    by (rule urlparse_plain) (simp add: url_text_def)
  have rel_text: "url_text ''v1/../dte''" by (simp add: url_text_def)
  have "urlsplit accept_all ?rel ''https'' = Inr (''https'', [], ?rel, [], [])"
    using web rel_text by (rule urlsplit_relative)
  then have pr: "urlparse accept_all ?rel ''https'' = Inr (''https'', [], ?rel, [], [], [])"
    by (rule urlparse_plain) (simp add: url_text_def)
  have "urljoin accept_all ?base ?rel =
          Inr (urlunparse (''https'', ''bhexpress.cl'', ''/api/dte'', [], [], []))"
  proof (rule urljoin_steps [OF _ _ pb pr web_scheme_lists [OF web]])
    show "?base \<noteq> []" by simp
    show "?rel \<noteq> []" by simp
    show "take 1 ?rel \<noteq> ''/''" by simp
    show "last (split_on (CHR ''/'') ''/'') = []" by simp
    show "filter_middle (split_on (CHR ''/'') ''/'' @ split_on (CHR ''/'') ?rel) =
            [[], ''api'', ''v1'', ''..'', ''dte'']"
      by (simp add: filter_middle_def)
    show "last [[], ''api'', ''v1'', ''..'', ''dte''] \<noteq> ''.''" by simp
    show "last [[], ''api'', ''v1'', ''..'', ''dte''] \<noteq> ''..''" by simp
    show "join_with ''/'' (fold resolve_step [[], ''api'', ''v1'', ''..'', ''dte''] []) = ''/api/dte''"
      by (simp add: resolve_step_def)
    show "''/api/dte'' \<noteq> []" by simp
  qed
  moreover have "urlunparse (''https'', ''bhexpress.cl'', ''/api/dte'', [], [], []) =
                   ''https'' @ ''://'' @ ''bhexpress.cl'' @ ''/api/dte''"
    by (rule urlunparse_plain) simp_all
  ultimately show ?thesis
    by (simp add: full_url_def example_client_def lstrip_chars_def)
qed


lemma urllib_recording: "urllib (recording out) = accept_all"
  by (simp add: recording_def)

lemma example_build:
  "build_request accept_all (example_client rfs) m ''/dte'' d hdrs h =
     Inr (\<lparr>req_method = m, req_url = ''https://bhexpress.cl/api/v1/dte'',
           req_data = encode_data d,
           req_headers = cells (snd (merge_headers (example_client rfs) hdrs h))
                           (fst (merge_headers (example_client rfs) hdrs h))\<rparr>,
          snd (merge_headers (example_client rfs) hdrs h))"
  using example_full_url by (rule build_request_url)

lemma example_sent:
  assumes "self st = example_client rfs" and "caller_resource vc = ''/dte''"
  shows "sent (recording out) vc st =
           Inr (\<lparr>req_method = verb_method vc, req_url = ''https://bhexpress.cl/api/v1/dte'',
                 req_data = encode_data (caller_data vc),
                 req_headers = cells (snd (merge_headers (self st) (caller_headers vc) (objects st)))
                                 (fst (merge_headers (self st) (caller_headers vc) (objects st)))\<rparr>,
                snd (merge_headers (self st) (caller_headers vc) (objects st)))"
  by (simp add: assms urllib_recording example_build)

lemma example_call:
  assumes "self st = example_client rfs" and "caller_resource vc = ''/dte''"
  shows "snd (call (recording out) vc st) =
           st\<lparr>objects := snd (merge_headers (self st) (caller_headers vc) (objects st)),
              world := world st @
                [\<lparr>req_method = verb_method vc, req_url = ''https://bhexpress.cl/api/v1/dte'',
                  req_data = encode_data (caller_data vc),
                  req_headers = cells (snd (merge_headers (self st) (caller_headers vc) (objects st)))
                                 (fst (merge_headers (self st) (caller_headers vc) (objects st)))\<rparr>]\<rparr>"
    and "fst (call (recording out) vc st) =
           (case out of Inr r \<Rightarrow> check_and_return_response (self st) r
            | Inl error \<Rightarrow> Inl (except_clauses error))"
  using example_sent [OF assms, of out]
  by (simp_all add: call_sent dispatch_unfold recording_def split: sum.splits)

lemma example_headers: "headers (example_client rfs) = 1"
  by (simp add: example_client_def)

lemma example_token: "token (example_client rfs) = ''secret''"
  by (simp add: example_client_def)

lemma example_self: "self (example_state rfs) = example_client rfs"
  by (simp add: example_state_def)

lemma example_flag: "raise_for_status (example_client rfs) = rfs"
  by (simp add: example_client_def)

lemma example_merge_plain:
  "merge_headers (example_client rfs) None example_heap = (3, example_heap_after)"
  by (simp add: merge_headers_def heap_alloc_def example_heap_def example_heap_after_def
        example_headers)

lemma example_sent_plain:
  assumes "caller_resource vc = ''/dte''" and "caller_headers vc = None"
  shows "sent (recording out) vc (example_state rfs) =
           Inr (example_request (verb_method vc) (encode_data (caller_data vc)), example_heap_after)"
proof -
  have "self (example_state rfs) = example_client rfs"
    by (simp add: example_state_def)
  from example_sent [OF this assms(1), of out] show ?thesis
    by (simp add: assms(2) example_state_def example_merge_plain example_request_def
          example_heap_after_def)
qed

lemma example_call_plain:
  assumes "caller_resource vc = ''/dte''" and "caller_headers vc = None"
  shows "world (snd (call (recording out) vc (example_state rfs))) =
           [example_request (verb_method vc) (encode_data (caller_data vc))]"
    and "fst (call (recording out) vc (example_state rfs)) =
           (case out of Inr r \<Rightarrow> check_and_return_response (example_client rfs) r
            | Inl error \<Rightarrow> Inl (except_clauses error))"
proof -
  have s: "self (example_state rfs) = example_client rfs"
    by (simp add: example_state_def)
  show "world (snd (call (recording out) vc (example_state rfs))) =
           [example_request (verb_method vc) (encode_data (caller_data vc))]"
    using example_call(1) [OF s assms(1), of out]
    by (simp add: assms(2) example_state_def example_merge_plain example_request_def
          example_heap_after_def)
  show "fst (call (recording out) vc (example_state rfs)) =
           (case out of Inr r \<Rightarrow> check_and_return_response (example_client rfs) r
            | Inl error \<Rightarrow> Inl (except_clauses error))"
    using example_call(2) [OF s assms(1), of out] by (simp add: s split: sum.splits)
qed

section \<open>The client is not changed by its calls\<close>

lemma fresh_mapping:
  assumes "sent X vc st = Inr (rq, h1)" and "headers (self st) < lim (objects st)"
  shows "\<exists>a. lim (objects st) \<le> a \<and> a < lim (objects (snd (call X vc st)))
             \<and> cells (objects (snd (call X vc st))) a = req_headers rq"
    and "req_headers rq =
           cells (objects st) (headers (self st))
             ++ (case caller_headers vc of None \<Rightarrow> Map.empty
                 | Some b \<Rightarrow> cells (objects st) b)"
proof -
  let ?m = "merge_headers (self st) (caller_headers vc) (objects st)"
  have h1: "h1 = snd ?m" and hd: "req_headers rq = cells h1 (fst ?m)"
    using build_request_parts(1,2) [OF assms(1)] by simp_all
  have after: "objects (snd (call X vc st)) = h1"
    using assms(1) by (rule call_objects)
  have "lim (objects st) \<le> fst ?m \<and> fst ?m < lim (objects (snd (call X vc st)))
          \<and> cells (objects (snd (call X vc st))) (fst ?m) = req_headers rq"
    unfolding after hd h1 using merge_headers_fresh [where h = "objects st" and c = "self st" and hdrs = "caller_headers vc"]
    by simp
  then show "\<exists>a. lim (objects st) \<le> a \<and> a < lim (objects (snd (call X vc st)))
             \<and> cells (objects (snd (call X vc st))) a = req_headers rq" ..
  show "req_headers rq =
           cells (objects st) (headers (self st))
             ++ (case caller_headers vc of None \<Rightarrow> Map.empty
                 | Some b \<Rightarrow> cells (objects st) b)"
    unfolding hd h1 using assms(2) by (rule merge_headers_contents)
qed

text \<open>
  Claim C9. Let a client \<open>c\<close> be built by \<^verbatim>\<open>ApiClient(token, url, version, raise_for_status)\<close>,
  and let \<open>st\<close> be the state after any sequence of calls of \<^verbatim>\<open>get\<close>, \<^verbatim>\<open>delete\<close>,
  \<^verbatim>\<open>post\<close> and \<^verbatim>\<open>put\<close> on it. Then the attributes of the client (token, base URL,
  address of the default headers, version, raise-on-error flag) are still the ones the
  constructor set, and the default headers are still the dictionary the constructor made from
  the token; the same holds after one more call \<open>vc\<close>, whatever it returns or raises.
  That call changes no dictionary that existed before it. When it gets as far as passing a
  request to the HTTP library, the headers of that request are a dictionary at an address
  that was not in use before the call, and this dictionary is the default headers
  overridden and extended by the headers the caller passed.
\<close>

theorem configuration_unchanged:
  assumes "init env tok u ver rfs h = Inr (c, h0)"
      and "st = calls X vcs \<lparr>self = c, objects = h0, world = w\<rparr>"
  shows "self st = c \<and> self (snd (call X vc st)) = c
       \<and> headers c < lim (objects st)
       \<and> cells (objects st) (headers c) = generate_headers (token c)
       \<and> cells (objects (snd (call X vc st))) (headers c) = generate_headers (token c)
       \<and> (\<forall>a < lim (objects st). cells (objects (snd (call X vc st))) a = cells (objects st) a)
       \<and> (\<forall>rq h1. sent X vc st = Inr (rq, h1) \<longrightarrow>
             (\<exists>a. lim (objects st) \<le> a \<and> a < lim (objects (snd (call X vc st)))
                  \<and> cells (objects (snd (call X vc st))) a = req_headers rq)
             \<and> req_headers rq =
                 generate_headers (token c)
                   ++ (case caller_headers vc of None \<Rightarrow> Map.empty
                       | Some b \<Rightarrow> cells (objects st) b))"
proof -
  let ?st0 = "\<lparr>self = c, objects = h0, world = w\<rparr>"
  have "headers (self ?st0) < lim (objects ?st0)"
    using init_headers(1) [OF assms(1)] by simp
  from calls_keep [OF this, of X vcs]
  have self_st: "self st = c" and lt: "headers c < lim (objects st)"
    and dflt: "cells (objects st) (headers c) = generate_headers (token c)"
    using init_headers(2) [OF assms(1)] by (simp_all add: assms(2))
  have self_after: "self (snd (call X vc st)) = c"
    using self_st by (simp add: call_self)
  have old: "\<forall>a < lim (objects st). cells (objects (snd (call X vc st))) a = cells (objects st) a"
    by (simp add: call_old_cells)
  have dflt_after: "cells (objects (snd (call X vc st))) (headers c) = generate_headers (token c)"
    using old lt dflt by simp
  have fresh: "\<forall>rq h1. sent X vc st = Inr (rq, h1) \<longrightarrow>
             (\<exists>a. lim (objects st) \<le> a \<and> a < lim (objects (snd (call X vc st)))
                  \<and> cells (objects (snd (call X vc st))) a = req_headers rq)
             \<and> req_headers rq =
                 generate_headers (token c)
                   ++ (case caller_headers vc of None \<Rightarrow> Map.empty
                       | Some b \<Rightarrow> cells (objects st) b)"
  proof (intro allI impI)
    fix rq h1 assume sent: "sent X vc st = Inr (rq, h1)"
    have lt': "headers (self st) < lim (objects st)" using lt self_st by simp
    show "(\<exists>a. lim (objects st) \<le> a \<and> a < lim (objects (snd (call X vc st)))
                  \<and> cells (objects (snd (call X vc st))) a = req_headers rq)
             \<and> req_headers rq =
                 generate_headers (token c)
                   ++ (case caller_headers vc of None \<Rightarrow> Map.empty
                       | Some b \<Rightarrow> cells (objects st) b)"
      using fresh_mapping [OF sent lt'] dflt self_st by simp
  qed
  show ?thesis
    using self_st self_after lt dflt dflt_after old fresh by blast
qed

theorem configuration_unchanged_witness:
  "let X = recording (Inr \<lparr>status_code = 200, response_text = ''[]'', json = Some (PList [])\<rparr>);
       st = calls X [Post ''/dte'' (PDict [(''folio'', PInt 7)]) (Some 0)] (example_state True);
       after = snd (call X (Put ''/dte'' (PStr ''{}'') (Some 0)) st)
   in init Map.empty (Some ''secret'') None None True caller_heap
        = Inr (example_client True, example_heap)
      \<and> self st = example_client True \<and> self after = example_client True
      \<and> headers (example_client True) = 1 \<and> lim (objects st) = 3 \<and> lim (objects after) = 4
      \<and> cells (objects st) 1 = generate_headers ''secret''
      \<and> cells (objects after) 1 = generate_headers ''secret''
      \<and> cells (objects after) 0 = caller_dict
      \<and> cells (objects after) 2 = cells (objects st) 2
      \<and> sent X (Put ''/dte'' (PStr ''{}'') (Some 0)) st
          = Inr (\<lparr>req_method = ''PUT'', req_url = ''https://bhexpress.cl/api/v1/dte'',
                  req_data = PStr ''{}'',
                  req_headers = generate_headers ''secret'' ++ caller_dict\<rparr>, objects after)
      \<and> cells (objects after) 3 = generate_headers ''secret'' ++ caller_dict
      \<and> (generate_headers ''secret'' ++ caller_dict) ''Accept'' = Some ''text/csv''
      \<and> (generate_headers ''secret'' ++ caller_dict) ''Authorization'' = Some ''Token secret''"
  using configuration_unchanged
          [of Map.empty "Some ''secret''" None None True caller_heap "example_client True" example_heap
              "calls (recording (Inr \<lparr>status_code = 200, response_text = ''[]'', json = Some (PList [])\<rparr>))
                    [Post ''/dte'' (PDict [(''folio'', PInt 7)]) (Some 0)]
                    (example_state True)"
              "recording (Inr \<lparr>status_code = 200, response_text = ''[]'', json = Some (PList [])\<rparr>)"
              "[Post ''/dte'' (PDict [(''folio'', PInt 7)]) (Some 0)]" "[]"
              "Put ''/dte'' (PStr ''{}'') (Some 0)"]
        example_init [of True]
  by (simp add: Let_def example_call [of _ True] example_build urllib_recording example_state_def
        example_headers example_token merge_headers_def heap_alloc_def example_heap_def caller_dict_def
        encode_data_def generate_headers_def
        del: call.simps One_nat_def)

end
